theory Spec2Isabelle
  imports Main "HOL-Library.Sublist" "HOL-Library.Char_ord" "HOL-Library.List_Lexorder"
begin

section \<open>Go strings\<close>

text \<open>
  A Go \<^verbatim>\<open>string\<close> is a sequence of bytes; \<^typ>\<open>string\<close> (a list of 8-bit
  characters) is that sequence. The functions of package \<^verbatim>\<open>strings\<close> that
  \<^verbatim>\<open>template.go\<close> calls are written out here.
\<close>

text \<open>
  \<^verbatim>\<open>strings.ToLower\<close>, on bytes: the letters \<^verbatim>\<open>A\<close> to \<^verbatim>\<open>Z\<close> are folded,
  every other byte is kept (Go also folds letters outside ASCII; none of them folds to a
  letter of \<^verbatim>\<open>messages\<close> or \<^verbatim>\<open>response\<close>, the two names the program looks for).
\<close>

definition lower_byte :: "char \<Rightarrow> char" where
  "lower_byte c =
     (if 65 \<le> (of_char c :: nat) \<and> (of_char c :: nat) \<le> 90
      then char_of ((of_char c :: nat) + 32) else c)"

definition ToLower :: "string \<Rightarrow> string" where
  "ToLower s = map lower_byte s"

text \<open>\<^verbatim>\<open>strings.Contains(s, substr)\<close>: \<open>substr\<close> occurs in \<open>s\<close> as a contiguous run.\<close>

fun Contains :: "string \<Rightarrow> string \<Rightarrow> bool" where
  "Contains [] substr = (substr = [])"
| "Contains (c # s) substr = (prefix substr (c # s) \<or> Contains s substr)"

text \<open>
  \<^verbatim>\<open>strings.Replace(s, old, new, 1)\<close>: the first (leftmost) occurrence of \<open>old\<close>
  is replaced by \<open>new\<close>; a string without an occurrence is returned as it is.
\<close>

fun Replace1 :: "string \<Rightarrow> string \<Rightarrow> string \<Rightarrow> string" where
  "Replace1 [] old new = (if old = [] then new else [])"
| "Replace1 (c # s) old new =
     (if prefix old (c # s) then new @ drop (length old) (c # s)
      else c # Replace1 s old new)"

text \<open>
  \<^verbatim>\<open>strings.TrimSpace\<close> removes leading and trailing white space as Unicode defines it
  (\<^verbatim>\<open>unicode.IsSpace\<close>). \<open>spaces\<close> lists the UTF-8 encodings of the white-space code
  points: the six ASCII ones, U+0085, U+00A0, U+1680, U+2000 to U+200A, U+2028, U+2029,
  U+202F, U+205F and U+3000.
\<close>

definition spaces :: "string list" where
  "spaces =
     [[CHR 0x09], [CHR 0x0A], [CHR 0x0B], [CHR 0x0C], [CHR 0x0D], [CHR 0x20],
      [CHR 0xC2, CHR 0x85], [CHR 0xC2, CHR 0xA0],
      [CHR 0xE1, CHR 0x9A, CHR 0x80],
      [CHR 0xE2, CHR 0x80, CHR 0x80], [CHR 0xE2, CHR 0x80, CHR 0x81],
      [CHR 0xE2, CHR 0x80, CHR 0x82], [CHR 0xE2, CHR 0x80, CHR 0x83],
      [CHR 0xE2, CHR 0x80, CHR 0x84], [CHR 0xE2, CHR 0x80, CHR 0x85],
      [CHR 0xE2, CHR 0x80, CHR 0x86], [CHR 0xE2, CHR 0x80, CHR 0x87],
      [CHR 0xE2, CHR 0x80, CHR 0x88], [CHR 0xE2, CHR 0x80, CHR 0x89],
      [CHR 0xE2, CHR 0x80, CHR 0x8A],
      [CHR 0xE2, CHR 0x80, CHR 0xA8], [CHR 0xE2, CHR 0x80, CHR 0xA9],
      [CHR 0xE2, CHR 0x80, CHR 0xAF], [CHR 0xE2, CHR 0x81, CHR 0x9F],
      [CHR 0xE3, CHR 0x80, CHR 0x80]]"

text \<open>The length of the white-space rune \<open>s\<close> starts with (0 when it starts with none).\<close>

definition space_prefix :: "string \<Rightarrow> nat" where
  "space_prefix s = (case List.find (\<lambda>sp. prefix sp s) spaces of None \<Rightarrow> 0 | Some sp \<Rightarrow> length sp)"

text \<open>The same at the end of \<open>s\<close>.\<close>

definition space_suffix :: "string \<Rightarrow> nat" where
  "space_suffix s = (case List.find (\<lambda>sp. suffix sp s) spaces of None \<Rightarrow> 0 | Some sp \<Rightarrow> length sp)"

lemma space_prefix_le: "space_prefix s \<le> length s"
  by (auto simp: space_prefix_def find_Some_iff prefix_length_le split: option.splits)

lemma space_suffix_le: "space_suffix s \<le> length s"
  by (auto simp: space_suffix_def find_Some_iff suffix_length_le split: option.splits)

function TrimLeft :: "string \<Rightarrow> string" where
  "TrimLeft s = (if space_prefix s = 0 then s else TrimLeft (drop (space_prefix s) s))"
  by pat_completeness auto
termination
proof (relation "measure length")
  fix s :: string
  assume "space_prefix s \<noteq> 0"
  with space_prefix_le [of s] show "(drop (space_prefix s) s, s) \<in> measure length"
    by simp
qed simp

function TrimRight :: "string \<Rightarrow> string" where
  "TrimRight s =
     (if space_suffix s = 0 then s else TrimRight (take (length s - space_suffix s) s))"
  by pat_completeness auto
termination
proof (relation "measure length")
  fix s :: string
  assume "space_suffix s \<noteq> 0"
  with space_suffix_le [of s] show "(take (length s - space_suffix s) s, s) \<in> measure length"
    by simp
qed simp

definition TrimSpace :: "string \<Rightarrow> string" where
  "TrimSpace s = TrimRight (TrimLeft s)"

text \<open>
  \<^verbatim>\<open>fmt.Sprintf("%d", n)\<close> for a counter that starts at 0 and is only incremented: the
  decimal digits of a natural number.
\<close>

definition digit :: "nat \<Rightarrow> char" where
  "digit d = char_of (48 + d)"

function Itoa :: "nat \<Rightarrow> string" where
  "Itoa n = (if n < 10 then [digit n] else Itoa (n div 10) @ [digit (n mod 10)])"
  by pat_completeness auto
termination
  by (relation "measure id") auto

declare TrimLeft.simps [simp del] TrimRight.simps [simp del] Itoa.simps [simp del]

section \<open>Messages and their collation\<close>

text \<open>
  \<^verbatim>\<open>api.Message\<close>: a role, the content, the attached images (each a byte string) and
  the tool calls. Tool calls and tool definitions are payloads the program only forwards.
\<close>

typedecl ToolCall

typedecl Tool

record Message =
  Role :: string
  Content :: string
  Images :: "string list"
  ToolCalls :: "ToolCall list"

text \<open>
  The inner loop of \<^verbatim>\<open>collate\<close>, \<^verbatim>\<open>for range msg.Images\<close>: one round per image,
  whatever the image is. \<open>n\<close> is the counter of \<^verbatim>\<open>collate\<close>, \<open>content\<close> is
  \<^verbatim>\<open>msg.Content\<close>; both are returned as the loop leaves them.
\<close>

fun tag_images :: "string list \<Rightarrow> nat \<Rightarrow> string \<Rightarrow> nat \<times> string" where
  "tag_images [] n content = (n, content)"
| "tag_images (img # imgs) n content =
     (let imageTag = ''[img-'' @ Itoa n @ '']'';
          content1 = (if \<not> Contains content ''[img]''
                      then TrimSpace (''[img] '' @ content) else content);
          content2 = Replace1 content1 ''[img]'' imageTag
      in tag_images imgs (n + 1) content2)"

text \<open>
  The outer loop of \<^verbatim>\<open>collate\<close> over \<^verbatim>\<open>msgs\<close>, with the three variables it updates:
  \<open>system\<close>, \<open>collated\<close> and the image counter \<open>n\<close>. Every entry of \<open>collated\<close> points
  to a copy of its own (\<^verbatim>\<open>msg := msgs[i]\<close>, then \<^verbatim>\<open>&msg\<close>), so the list of pointers
  is the list of the messages they point to; the store behind them is \<open>collate_store\<close> below.
\<close>

fun collate_loop ::
  "Message list \<Rightarrow> string \<Rightarrow> Message list \<Rightarrow> nat \<Rightarrow> string \<times> Message list" where
  "collate_loop [] system collated n = (system, collated)"
| "collate_loop (m # msgs) system collated n =
     (if Role m = ''system'' then
        collate_loop msgs
          ((if system \<noteq> [] then system @ ''\<newline>\<newline>'' else system) @ Content m)
          collated n
      else
        let (n', content) = tag_images (Images m) n (Content m);
            msg = m\<lparr>Content := content\<rparr>
        in if collated \<noteq> [] \<and> Role (last collated) = Role msg
           then collate_loop msgs system
                  (butlast collated @
                     [(last collated)\<lparr>Content :=
                         Content (last collated) @ ''\<newline>\<newline>'' @ Content msg\<rparr>])
                  n'
           else collate_loop msgs system (collated @ [msg]) n')"

definition collate :: "Message list \<Rightarrow> string \<times> Message list" where
  "collate msgs = collate_loop msgs [] [] 0"

section \<open>The parsed template and its identifiers\<close>

text \<open>
  The nodes of \<^verbatim>\<open>text/template/parse\<close>. A pipeline (\<^verbatim>\<open>*parse.PipeNode\<close>) is kept
  as its commands and a command as its arguments (\<^verbatim>\<open>Cmds[i].Args\<close>), which is all that
  \<^verbatim>\<open>Identifiers\<close> reads of them. The two lists of a branch may be \<^verbatim>\<open>nil\<close>. The
  pipeline of a \<^verbatim>\<open>TemplateNode\<close> is present in this model: \<^verbatim>\<open>Identifiers\<close>
  dereferences it without a check.
\<close>

datatype node =
    ListNode "node list"
  | TextNode string
  | ActionNode "node list list"
  | TemplateNode string "node list list"
  | BranchNode "node list list" "node list option" "node list option"
  | IfNode "node list list" "node list option" "node list option"
  | RangeNode "node list list" "node list option" "node list option"
  | WithNode "node list list" "node list option" "node list option"
  | PipeNode "node list list"
  | FieldNode "string list"
  | VariableNode "string list"
  | ChainNode node "string list"
  | CommandNode "node list"
  | IdentifierNode string
  | StringNode string
  | NumberNode string
  | BoolNode bool
  | DotNode
  | NilNode
  | CommentNode string
  | BreakNode
  | ContinueNode

text \<open>
  \<^verbatim>\<open>Identifiers\<close>. Its cases for a pipeline and for a list are written where the source
  calls itself on \<^verbatim>\<open>n.Pipe\<close>, \<^verbatim>\<open>n.List\<close> and \<^verbatim>\<open>n.ElseList\<close>; the cases for
  \<^verbatim>\<open>IfNode\<close>, \<^verbatim>\<open>RangeNode\<close> and \<^verbatim>\<open>WithNode\<close> are the one for the
  \<^verbatim>\<open>BranchNode\<close> they embed. Every other node yields \<^verbatim>\<open>nil\<close>.
\<close>

fun Identifiers :: "node \<Rightarrow> string list" where
  "Identifiers (ListNode ns) = concat (map Identifiers ns)"
| "Identifiers (TemplateNode name pipe) =
     concat (map (\<lambda>args. concat (map Identifiers args)) pipe)"
| "Identifiers (ActionNode pipe) =
     concat (map (\<lambda>args. concat (map Identifiers args)) pipe)"
| "Identifiers (BranchNode pipe list elseList) =
     concat (map (\<lambda>args. concat (map Identifiers args)) pipe)
     @ (case list of None \<Rightarrow> [] | Some ns \<Rightarrow> concat (map Identifiers ns))
     @ (case elseList of None \<Rightarrow> [] | Some ns \<Rightarrow> concat (map Identifiers ns))"
| "Identifiers (IfNode pipe list elseList) =
     concat (map (\<lambda>args. concat (map Identifiers args)) pipe)
     @ (case list of None \<Rightarrow> [] | Some ns \<Rightarrow> concat (map Identifiers ns))
     @ (case elseList of None \<Rightarrow> [] | Some ns \<Rightarrow> concat (map Identifiers ns))"
| "Identifiers (RangeNode pipe list elseList) =
     concat (map (\<lambda>args. concat (map Identifiers args)) pipe)
     @ (case list of None \<Rightarrow> [] | Some ns \<Rightarrow> concat (map Identifiers ns))
     @ (case elseList of None \<Rightarrow> [] | Some ns \<Rightarrow> concat (map Identifiers ns))"
| "Identifiers (WithNode pipe list elseList) =
     concat (map (\<lambda>args. concat (map Identifiers args)) pipe)
     @ (case list of None \<Rightarrow> [] | Some ns \<Rightarrow> concat (map Identifiers ns))
     @ (case elseList of None \<Rightarrow> [] | Some ns \<Rightarrow> concat (map Identifiers ns))"
| "Identifiers (PipeNode pipe) =
     concat (map (\<lambda>args. concat (map Identifiers args)) pipe)"
| "Identifiers (FieldNode ident) = ident"
| "Identifiers (VariableNode ident) = ident"
| "Identifiers _ = []"

text \<open>
  \<^verbatim>\<open>text/template.Template\<close> as this program builds it: the nodes of its tree's root
  (\<^verbatim>\<open>Tree.Root.Nodes\<close>), the roots of the other templates its source defines (what
  \<^verbatim>\<open>Templates()\<close> returns beside the template itself), and whether it was set up by
  \<^verbatim>\<open>New("").Option("missingkey=zero").Funcs(funcs)\<close>.
\<close>

record TextTemplate =
  Root :: "node list"
  Defs :: "node list list"
  Configured :: bool

text \<open>\<^verbatim>\<open>type Template struct { *template.Template; raw string }\<close>\<close>

record Template =
  tmpl :: TextTemplate
  raw :: string

text \<open>
  The errors of the program: one a library returned (\<^verbatim>\<open>text/template\<close>,
  \<^verbatim>\<open>encoding/json\<close>, \<^verbatim>\<open>embed\<close>, \<^verbatim>\<open>archive/zip\<close>, \<^verbatim>\<open>os\<close>) with its message,
  \<^verbatim>\<open>errors.New("no matching template found")\<close>, \<^verbatim>\<open>zip.ErrInsecurePath\<close>,
  \<^verbatim>\<open>fs.ErrInvalid\<close>, \<^verbatim>\<open>fs.ErrNotExist\<close>, and \<^verbatim>\<open>&fs.PathError{Op, Path, Err}\<close>.
\<close>

datatype error =
    LibraryError string
  | NoMatchingTemplate
  | ErrInsecurePath
  | ErrInvalid
  | ErrNotExist
  | PathError string string error

text \<open>
  The package's node \<^verbatim>\<open>response\<close>, the action \<^verbatim>\<open>{{ .Response }}\<close> (named
  \<open>response_node\<close> here: \<^verbatim>\<open>Execute\<close> has a variable \<^verbatim>\<open>response\<close> of its own).
\<close>

definition response_node :: node where
  "response_node = ActionNode [[FieldNode [''Response'']]]"

text \<open>\<^verbatim>\<open>t.Templates()\<close>, as the roots of the templates it returns.\<close>

definition Templates :: "TextTemplate \<Rightarrow> node list list" where
  "Templates t = Root t # Defs t"

text \<open>
  \<^verbatim>\<open>Vars\<close>: the identifiers of every node of every template, lower-cased, without
  duplicates (the keys of a set), sorted.
\<close>

definition Vars :: "Template \<Rightarrow> string list" where
  "Vars t =
     sort (remdups (map ToLower
       (concat (map (\<lambda>nodes. concat (map Identifiers nodes)) (Templates (tmpl t))))))"

text \<open>
  \<^verbatim>\<open>Parse\<close>. The parser of \<^verbatim>\<open>text/template\<close> is a parameter: for a source it returns
  an error, or the root's nodes and the roots of the templates the source defines.
\<close>

definition Parse ::
  "(string \<Rightarrow> error + node list \<times> node list list) \<Rightarrow> string \<Rightarrow> error + Template" where
  "Parse parser s =
     (case parser s of
        Inl err \<Rightarrow> Inl err
      | Inr (root, defs) \<Rightarrow>
          let t = \<lparr>tmpl = \<lparr>Root = root, Defs = defs, Configured = True\<rparr>, raw = s\<rparr>;
              vars = Vars t
          in if ''messages'' \<notin> set vars \<and> ''response'' \<notin> set vars
             then Inr (t\<lparr>tmpl := (tmpl t)\<lparr>Root := Root (tmpl t) @ [response_node]\<rparr>\<rparr>)
             else Inr t)"

definition String :: "Template \<Rightarrow> string" where
  "String t = raw t"

section \<open>Rendering\<close>

text \<open>\<^verbatim>\<open>type Values struct { Messages []api.Message; Tools []api.Tool }\<close>\<close>

record Values =
  Messages :: "Message list"
  Tools :: "Tool list"

text \<open>
  The values \<^verbatim>\<open>Execute\<close> binds in the \<^verbatim>\<open>map[string]any\<close> it hands to the
  evaluator: a string, the collated messages, the tools.
\<close>

datatype any = AnyString string | AnyMessages "Message list" | AnyTools "Tool list"

text \<open>
  The evaluator of \<^verbatim>\<open>text/template\<close> (the method \<^verbatim>\<open>Execute\<close> of the embedded
  template) is a parameter: for a template and the data it returns the bytes it wrote to
  its writer and the error it returned, \<open>None\<close> for \<^verbatim>\<open>nil\<close>. It may write and then
  fail.
\<close>

type_synonym evaluator = "TextTemplate \<Rightarrow> (string \<rightharpoonup> any) \<Rightarrow> string \<times> error option"

text \<open>
  The loop of \<^verbatim>\<open>Execute\<close> over \<^verbatim>\<open>collated\<close>: \<open>len\<close> is \<^verbatim>\<open>len(collated)\<close>, \<open>i\<close>
  the index of the first of the messages still to visit, \<open>b\<close> the bytes in the buffer.
  The loop returns the error of the evaluator, or the buffer, \<open>prompt\<close> and \<open>response\<close>
  as it leaves them.
\<close>

fun turns ::
  "evaluator \<Rightarrow> Template \<Rightarrow> nat \<Rightarrow> nat \<Rightarrow> Message list \<Rightarrow> string \<Rightarrow> string \<Rightarrow> string
     \<Rightarrow> error + string \<times> string \<times> string" where
  "turns ev t len i [] b prompt response = Inr (b, prompt, response)"
| "turns ev t len i (m # ms) b prompt response =
     (let prompt1 = (if Role m = ''user'' then Content m else prompt);
          response1 = (if Role m = ''user'' then response else Content m)
      in if int i \<noteq> int len - 1 \<and> prompt1 \<noteq> [] \<and> response1 \<noteq> [] then
           (case ev (tmpl t)
                   [''System'' \<mapsto> AnyString [], ''Prompt'' \<mapsto> AnyString prompt1,
                    ''Response'' \<mapsto> AnyString response1] of
              (out, Some err) \<Rightarrow> Inl err
            | (out, None) \<Rightarrow> turns ev t len (i + 1) ms (b @ out) [] [])
         else turns ev t len (i + 1) ms b prompt1 response1)"

text \<open>
  \<^verbatim>\<open>slices.DeleteFunc\<close> with the closure of \<^verbatim>\<open>Execute\<close>: the closure is called on
  every node once, in order; it sets \<^verbatim>\<open>cut\<close> at a node whose identifiers contain
  \<^verbatim>\<open>"Response"\<close> and returns \<^verbatim>\<open>cut\<close>; the nodes it returns true for are deleted.
  \<open>cut0\<close> is \<^verbatim>\<open>cut\<close> before the call on a node, \<open>cut1\<close> after it.
\<close>

fun DeleteFunc_cut :: "bool \<Rightarrow> node list \<Rightarrow> node list" where
  "DeleteFunc_cut cut0 [] = []"
| "DeleteFunc_cut cut0 (n # ns) =
     (let cut1 = (if ''Response'' \<in> set (Identifiers n) then True else cut0)
      in if cut1 then DeleteFunc_cut cut1 ns else n # DeleteFunc_cut cut1 ns)"

text \<open>
  \<^verbatim>\<open>Execute\<close>. \<open>w\<close> is what the caller's writer holds already; the result is what it
  holds afterwards, and the error returned. The writer is one that takes every byte (a
  \<^verbatim>\<open>bytes.Buffer\<close>, as in the callers of this package).
\<close>

definition Execute :: "evaluator \<Rightarrow> Template \<Rightarrow> string \<Rightarrow> Values \<Rightarrow> string \<times> error option" where
  "Execute ev t w v =
     (let (system, collated) = collate (Messages v) in
      if ''messages'' \<in> set (Vars t) then
        (let (out, err) =
               ev (tmpl t)
                 [''System'' \<mapsto> AnyString system, ''Messages'' \<mapsto> AnyMessages collated,
                  ''Tools'' \<mapsto> AnyTools (Tools v)]
         in (w @ out, err))
      else
        (case turns ev t (length collated) 0 collated [] [] [] of
           Inl err \<Rightarrow> (w, Some err)
         | Inr (b, prompt, response) \<Rightarrow>
             (let tree = DeleteFunc_cut False (Root (tmpl t)) in
              case ev \<lparr>Root = tree, Defs = [], Configured = False\<rparr>
                     [''System'' \<mapsto> AnyString system, ''Prompt'' \<mapsto> AnyString prompt] of
                (out, Some err) \<Rightarrow> (w, Some err)
              | (out, None) \<Rightarrow> (w @ b @ out, None))))"

text \<open>
  The evaluator of \<^verbatim>\<open>text/template\<close> on a fragment of the templates, for evaluating
  \<open>Execute\<close> at concrete templates. Text is written as it is. An action
  \<^verbatim>\<open>{{ .Field }}\<close> writes the string the data binds the field to, and \<^verbatim>\<open><no value>\<close>
  for a field the data does not bind. \<^verbatim>\<open>{{ if .Field }}\<close> takes its first list when
  the field is bound to a non-empty value and its else list otherwise. On any other node
  the evaluator stops with an error, keeping what it wrote. \<open>single_field\<close> is the field of
  a pipeline that is one field and nothing else.
\<close>

fun truth :: "any option \<Rightarrow> bool" where
  "truth None = False"
| "truth (Some (AnyString s)) = (s \<noteq> [])"
| "truth (Some (AnyMessages ms)) = (ms \<noteq> [])"
| "truth (Some (AnyTools ts)) = (ts \<noteq> [])"

text \<open>What was written and returned, followed by what the rest writes and returns.\<close>

fun followed_by :: "string \<times> error option \<Rightarrow> string \<times> error option \<Rightarrow> string \<times> error option" where
  "followed_by (out, Some err) rest = (out, Some err)"
| "followed_by (out, None) (out', err) = (out @ out', err)"

fun single_field :: "node list list \<Rightarrow> string option" where
  "single_field [[FieldNode [k]]] = Some k"
| "single_field pipe = None"

fun exec_nodes :: "node list \<Rightarrow> (string \<rightharpoonup> any) \<Rightarrow> string \<times> error option" where
  "exec_nodes [] data = ([], None)"
| "exec_nodes (TextNode s # ns) data = followed_by (s, None) (exec_nodes ns data)"
| "exec_nodes (ActionNode pipe # ns) data =
     (case single_field pipe of
        None \<Rightarrow> ([], Some (LibraryError ''template: unsupported node''))
      | Some k \<Rightarrow>
          (case data k of
             None \<Rightarrow> followed_by (''<no value>'', None) (exec_nodes ns data)
           | Some (AnyString s) \<Rightarrow> followed_by (s, None) (exec_nodes ns data)
           | Some _ \<Rightarrow> ([], Some (LibraryError ''template: unsupported value''))))"
| "exec_nodes (IfNode pipe list elseList # ns) data =
     (case single_field pipe of
        None \<Rightarrow> ([], Some (LibraryError ''template: unsupported node''))
      | Some k \<Rightarrow>
          followed_by
            (if truth (data k)
             then (case list of None \<Rightarrow> ([], None) | Some body \<Rightarrow> exec_nodes body data)
             else (case elseList of None \<Rightarrow> ([], None) | Some body \<Rightarrow> exec_nodes body data))
            (exec_nodes ns data))"
| "exec_nodes (n # ns) data = ([], Some (LibraryError ''template: unsupported node''))"

definition exec_text :: evaluator where
  "exec_text t data = exec_nodes (Root t) data"

section \<open>The catalog\<close>

text \<open>\<^verbatim>\<open>type named struct { Name string; Template string; Bytes []byte }\<close>\<close>

record named =
  Name :: string
  Template :: string
  Bytes :: string

text \<open>\<^verbatim>\<open>math.MaxInt\<close>, of a 64-bit \<^verbatim>\<open>int\<close>.\<close>

definition MaxInt :: int where
  "MaxInt = 2 ^ 63 - 1"

text \<open>
  The loop of \<^verbatim>\<open>Named\<close> over the catalog, with \<open>score\<close> and \<open>template\<close> (\<open>None\<close> for
  the \<^verbatim>\<open>nil\<close> pointer). \<open>dist\<close> is \<^verbatim>\<open>levenshtein.ComputeDistance\<close>, a function of
  another module.
\<close>

fun Named_loop ::
  "(string \<Rightarrow> string \<Rightarrow> int) \<Rightarrow> string \<Rightarrow> named list \<Rightarrow> int \<Rightarrow> named option \<Rightarrow> int \<times> named option" where
  "Named_loop dist s [] score template = (score, template)"
| "Named_loop dist s (t # ts) score template =
     (if dist s (Template t) < score then Named_loop dist s ts (dist s (Template t)) (Some t)
      else Named_loop dist s ts score template)"

text \<open>
  \<^verbatim>\<open>Named\<close>. \<open>templatesOnce\<close> is what the memoised load of the catalog returns: an error,
  or the entries in the order of \<^verbatim>\<open>index.json\<close>.
\<close>

definition Named ::
  "(string \<Rightarrow> string \<Rightarrow> int) \<Rightarrow> error + named list \<Rightarrow> string \<Rightarrow> error + named option" where
  "Named dist templatesOnce s =
     (case templatesOnce of
        Inl err \<Rightarrow> Inl err
      | Inr templates \<Rightarrow>
          (let (score, template) = Named_loop dist s templates MaxInt None
           in if score < 100 then Inr template else Inl NoMatchingTemplate))"

text \<open>
  The Levenshtein distance (insertions, deletions and substitutions of one element), for
  evaluating \<open>Named\<close> on a concrete catalog.
\<close>

fun levenshtein :: "string \<Rightarrow> string \<Rightarrow> nat" where
  "levenshtein [] ys = length ys"
| "levenshtein xs [] = length xs"
| "levenshtein (x # xs) (y # ys) =
     (if x = y then levenshtein xs ys
      else 1 + min (levenshtein xs ys) (min (levenshtein xs (y # ys)) (levenshtein (x # xs) ys)))"

section \<open>The messages of the caller\<close>

text \<open>
  \<^verbatim>\<open>collate\<close> once more, with the memory its pointers point into. The store is a list
  of cells, the address of a cell its index. The caller's slice \<^verbatim>\<open>msgs\<close> is the cells
  \<open>addrs\<close>; \<^verbatim>\<open>msg := msgs[i]\<close> reads a cell into the variable \<^verbatim>\<open>msg\<close>, which the
  image loop then assigns to; \<^verbatim>\<open>append(collated, &msg)\<close> puts the variable in a new cell
  and keeps its address; \<^verbatim>\<open>collated[len(collated)-1].Content += ...\<close> writes through the
  last address kept.
\<close>

fun collate_store_loop ::
  "Message list \<Rightarrow> nat list \<Rightarrow> string \<Rightarrow> nat list \<Rightarrow> nat
     \<Rightarrow> Message list \<times> string \<times> nat list" where
  "collate_store_loop store [] system collated n = (store, system, collated)"
| "collate_store_loop store (a # addrs) system collated n =
     (let m = store ! a in
      if Role m = ''system'' then
        collate_store_loop store addrs
          ((if system \<noteq> [] then system @ ''\<newline>\<newline>'' else system) @ Content m)
          collated n
      else
        let (n', content) = tag_images (Images m) n (Content m);
            msg = m\<lparr>Content := content\<rparr>
        in if collated \<noteq> [] \<and> Role (store ! last collated) = Role msg
           then collate_store_loop
                  (store[last collated := (store ! last collated)\<lparr>Content :=
                     Content (store ! last collated) @ ''\<newline>\<newline>'' @ Content msg\<rparr>])
                  addrs system collated n'
           else collate_store_loop (store @ [msg]) addrs system (collated @ [length store]) n')"

text \<open>The call \<^verbatim>\<open>collate(msgs)\<close> on a store that holds the caller's slice and nothing else.\<close>

definition collate_store :: "Message list \<Rightarrow> Message list \<times> string \<times> nat list" where
  "collate_store msgs = collate_store_loop msgs [0..<length msgs] [] [] 0"

section \<open>The staging file system\<close>

text \<open>
  \<open>elements\<close> splits a path at its slashes: \<^verbatim>\<open>a/b\<close> has the elements \<^verbatim>\<open>a\<close> and
  \<^verbatim>\<open>b\<close>, the empty path has one empty element.
\<close>

fun elements :: "string \<Rightarrow> string list" where
  "elements [] = [[]]"
| "elements (c # s) =
     (if c = CHR ''/'' then [] # elements s
      else (case elements s of e # es \<Rightarrow> (c # e) # es | [] \<Rightarrow> [[c]]))"

text \<open>
  \<^verbatim>\<open>utf8.ValidString\<close>, on the bytes as numbers: \<open>continuation\<close> is a byte from 0x80 to
  0xBF; a sequence is one ASCII byte, or a leading byte 0xC2 to 0xF4 followed by the one,
  two or three bytes its range allows.
\<close>

definition continuation :: "nat \<Rightarrow> bool" where
  "continuation b = (128 \<le> b \<and> b \<le> 191)"

fun utf8_valid :: "nat list \<Rightarrow> bool" where
  "utf8_valid [] = True"
| "utf8_valid [b] = (b < 128)"
| "utf8_valid [b, c1] = (if b < 128 then utf8_valid [c1] else 194 \<le> b \<and> b \<le> 223 \<and> continuation c1)"
| "utf8_valid [b, c1, c2] =
     (if b < 128 then utf8_valid [c1, c2]
      else if 194 \<le> b \<and> b \<le> 223 then continuation c1 \<and> utf8_valid [c2]
      else if b = 224 then 160 \<le> c1 \<and> c1 \<le> 191 \<and> continuation c2
      else if b = 237 then 128 \<le> c1 \<and> c1 \<le> 159 \<and> continuation c2
      else 225 \<le> b \<and> b \<le> 239 \<and> continuation c1 \<and> continuation c2)"
| "utf8_valid (b # c1 # c2 # c3 # bs) =
     (if b < 128 then utf8_valid (c1 # c2 # c3 # bs)
      else if 194 \<le> b \<and> b \<le> 223 then continuation c1 \<and> utf8_valid (c2 # c3 # bs)
      else if b = 224 then 160 \<le> c1 \<and> c1 \<le> 191 \<and> continuation c2 \<and> utf8_valid (c3 # bs)
      else if b = 237 then 128 \<le> c1 \<and> c1 \<le> 159 \<and> continuation c2 \<and> utf8_valid (c3 # bs)
      else if 225 \<le> b \<and> b \<le> 239 then continuation c1 \<and> continuation c2 \<and> utf8_valid (c3 # bs)
      else if b = 240 then
        144 \<le> c1 \<and> c1 \<le> 191 \<and> continuation c2 \<and> continuation c3 \<and> utf8_valid bs
      else if b = 244 then
        128 \<le> c1 \<and> c1 \<le> 143 \<and> continuation c2 \<and> continuation c3 \<and> utf8_valid bs
      else 241 \<le> b \<and> b \<le> 243 \<and> continuation c1 \<and> continuation c2 \<and> continuation c3
           \<and> utf8_valid bs)"

text \<open>
  \<^verbatim>\<open>fs.ValidPath\<close>: the name is valid UTF-8 and is \<^verbatim>\<open>.\<close>, or none of its elements
  is empty, \<^verbatim>\<open>.\<close> or \<^verbatim>\<open>..\<close>.
\<close>

definition ValidPath :: "string \<Rightarrow> bool" where
  "ValidPath name =
     (utf8_valid (map of_char name) \<and>
      (name = ''.'' \<or> list_all (\<lambda>e. e \<noteq> [] \<and> e \<noteq> ''.'' \<and> e \<noteq> ''..'') (elements name)))"

text \<open>
  What \<^verbatim>\<open>z.r.Open(name)\<close> returns when it succeeds: a file of the archive, with the
  result of its \<^verbatim>\<open>Stat()\<close> (an error, or the size \<^verbatim>\<open>fi.Size()\<close>) and its bytes.
\<close>

record zfile =
  Stat :: "error + int"
  Data :: string

text \<open>
  \<^verbatim>\<open>(*zip.Reader).Open\<close>. Before it looks at the archive it refuses a name that is not
  a valid path, with \<^verbatim>\<open>&fs.PathError{Op: "open", Path: name, Err: fs.ErrInvalid}\<close>.
  \<open>archive\<close> is what the reader does with a valid name: the file or directory it opens,
  or its error.
\<close>

definition zip_Open :: "(string \<Rightarrow> error + zfile) \<Rightarrow> string \<Rightarrow> error + zfile" where
  "zip_Open archive name =
     (if \<not> ValidPath name then Inl (PathError ''open'' name ErrInvalid) else archive name)"

text \<open>
  The \<^verbatim>\<open>fs.File\<close> that \<^verbatim>\<open>Open\<close> returns: the file of the archive, or the local
  file \<^verbatim>\<open>os.Open\<close> opened at a path.
\<close>

datatype opened = ArchiveFile zfile | LocalFile string

text \<open>
  \<^verbatim>\<open>type tempzipfs struct { r *zip.Reader; p string }\<close>, the reader as what its archive
  holds.
\<close>

record tempzipfs =
  z_r :: "string \<Rightarrow> error + zfile"
  z_p :: string

text \<open>
  The functions of \<^verbatim>\<open>path/filepath\<close>, \<^verbatim>\<open>os\<close> and \<^verbatim>\<open>io\<close> that \<^verbatim>\<open>Open\<close> calls
  are parameters, over a state \<open>'d\<close> of the local file system: \<^verbatim>\<open>os.Stat\<close> returns
  its error (\<open>None\<close> for \<^verbatim>\<open>nil\<close>); \<^verbatim>\<open>os.Create\<close> and \<^verbatim>\<open>io.Copy\<close> into the
  file created return the state they leave and their error; \<^verbatim>\<open>os.Open\<close> returns the
  file or its error.
\<close>

record 'd host =
  IsLocal :: "string \<Rightarrow> bool"
  Join :: "string \<Rightarrow> string \<Rightarrow> string"
  os_Stat :: "'d \<Rightarrow> string \<Rightarrow> error option"
  os_Create :: "'d \<Rightarrow> string \<Rightarrow> 'd \<times> error option"
  io_Copy :: "'d \<Rightarrow> string \<Rightarrow> string \<Rightarrow> 'd \<times> error option"
  os_Open :: "'d \<Rightarrow> string \<Rightarrow> error + opened"

text \<open>\<^verbatim>\<open>errors.Is(err, os.ErrNotExist)\<close>\<close>

fun is_not_exist :: "error \<Rightarrow> bool" where
  "is_not_exist ErrNotExist = True"
| "is_not_exist (PathError op path err) = is_not_exist err"
| "is_not_exist err = False"

text \<open>
  \<^verbatim>\<open>(*tempzipfs).Open\<close>, from the state \<open>disk\<close> of the local file system to the state
  it leaves and what it returns.
\<close>

definition Open ::
  "'d host \<Rightarrow> tempzipfs \<Rightarrow> 'd \<Rightarrow> string \<Rightarrow> 'd \<times> (error + opened)" where
  "Open host z disk name =
     (case zip_Open (z_r z) name of
        Inl err \<Rightarrow> (disk, Inl err)
      | Inr r \<Rightarrow>
          (case Stat r of
             Inl err \<Rightarrow> (disk, Inl err)
           | Inr sz \<Rightarrow>
               if sz < 32 * 2 ^ 20 then (disk, Inr (ArchiveFile r))
               else if \<not> IsLocal host name then (disk, Inl ErrInsecurePath)
               else
                 (let n = Join host (z_p z) name in
                  case os_Stat host disk n of
                    None \<Rightarrow> (disk, os_Open host disk n)
                  | Some err \<Rightarrow>
                      if is_not_exist err then
                        (case os_Create host disk n of
                           (disk1, Some err1) \<Rightarrow> (disk1, Inl err1)
                         | (disk1, None) \<Rightarrow>
                             (case io_Copy host disk1 n (Data r) of
                                (disk2, Some err2) \<Rightarrow> (disk2, Inl err2)
                              | (disk2, None) \<Rightarrow> (disk2, os_Open host disk2 n)))
                      else (disk, Inl err))))"

text \<open>
  \<^verbatim>\<open>filepath.IsLocal\<close> on Unix: a path is local when it is not empty, not absolute,
  and never steps above the directory it starts in. \<open>stays_inside\<close> walks the elements
  with the depth reached.
\<close>

fun stays_inside :: "nat \<Rightarrow> string list \<Rightarrow> bool" where
  "stays_inside depth [] = True"
| "stays_inside depth (e # es) =
     (if e = [] \<or> e = ''.'' then stays_inside depth es
      else if e = ''..'' then (0 < depth \<and> stays_inside (depth - 1) es)
      else stays_inside (depth + 1) es)"

definition unix_IsLocal :: "string \<Rightarrow> bool" where
  "unix_IsLocal path = (path \<noteq> [] \<and> \<not> prefix ''/'' path \<and> stays_inside 0 (elements path))"

text \<open>
  A host for evaluating \<open>Open\<close> at concrete names: its file system is a map from paths to
  contents, its paths are joined with a slash, and its calls fail for a missing file only.
\<close>

definition memory_host :: "(string \<rightharpoonup> string) host" where
  "memory_host =
     \<lparr>IsLocal = unix_IsLocal,
      Join = (\<lambda>dir name. dir @ ''/'' @ name),
      os_Stat = (\<lambda>disk n. if disk n = None then Some (PathError ''stat'' n ErrNotExist) else None),
      os_Create = (\<lambda>disk n. (disk(n \<mapsto> []), None)),
      io_Copy = (\<lambda>disk n bytes. (disk(n \<mapsto> bytes), None)),
      os_Open = (\<lambda>disk n. if disk n = None then Inl (PathError ''open'' n ErrNotExist)
                           else Inr (LocalFile n))\<rparr>"

section \<open>The walk over the collated messages, as the specification words it\<close>

text \<open>
  The specification's step (b) of the legacy conversion, without an index: a message is
  the last of the sequence when no message follows it. A user message sets \<open>prompt\<close>, any
  other sets \<open>response\<close>; when both are non-empty and the message is not the last, the
  template is rendered with \<^verbatim>\<open>{System: "", Prompt, Response}\<close>, its output is appended to
  the transcript and both are reset.
\<close>

fun spec_turns ::
  "evaluator \<Rightarrow> Template \<Rightarrow> Message list \<Rightarrow> string \<Rightarrow> string \<Rightarrow> string
     \<Rightarrow> error + string \<times> string \<times> string" where
  "spec_turns ev t [] b prompt response = Inr (b, prompt, response)"
| "spec_turns ev t (m # ms) b prompt response =
     (let prompt1 = (if Role m = ''user'' then Content m else prompt);
          response1 = (if Role m = ''user'' then response else Content m)
      in if prompt1 \<noteq> [] \<and> response1 \<noteq> [] \<and> ms \<noteq> [] then
           (case ev (tmpl t)
                   [''System'' \<mapsto> AnyString [], ''Prompt'' \<mapsto> AnyString prompt1,
                    ''Response'' \<mapsto> AnyString response1] of
              (out, Some err) \<Rightarrow> Inl err
            | (out, None) \<Rightarrow> spec_turns ev t ms (b @ out) [] [])
         else spec_turns ev t ms b prompt1 response1)"

section \<open>Collation, as the specification words it\<close>

text \<open>Strings joined with a separator between successive ones.\<close>

fun separated :: "string \<Rightarrow> string list \<Rightarrow> string" where
  "separated sep [] = []"
| "separated sep [x] = x"
| "separated sep (x # y # ys) = x @ sep @ separated sep (y # ys)"

text \<open>
  The system text of the specification's step 1: the contents of the system messages,
  in order, a blank line between successive ones. The contents are taken from the first
  that is not empty.
\<close>

definition spec_system :: "Message list \<Rightarrow> string" where
  "spec_system msgs =
     separated ''\<newline>\<newline>''
       (dropWhile (\<lambda>c. c = []) (map Content (filter (\<lambda>m. Role m = ''system'') msgs)))"

text \<open>
  Step 2: the image loop on every message in turn, the counter \<open>n\<close> going from one
  message to the next.
\<close>

fun spec_tagged :: "nat \<Rightarrow> Message list \<Rightarrow> Message list" where
  "spec_tagged n [] = []"
| "spec_tagged n (m # ms) =
     m\<lparr>Content := snd (tag_images (Images m) n (Content m))\<rparr>
     # spec_tagged (fst (tag_images (Images m) n (Content m))) ms"

text \<open>
  Step 3: a message whose role is that of the message before it is merged into it, its
  content after two newlines.
\<close>

fun spec_merged :: "Message list \<Rightarrow> Message list" where
  "spec_merged [] = []"
| "spec_merged [m] = [m]"
| "spec_merged (m # m' # ms) =
     (if Role m = Role m'
      then spec_merged (m\<lparr>Content := Content m @ ''\<newline>\<newline>'' @ Content m'\<rparr> # ms)
      else m # spec_merged (m' # ms))"

section \<open>Concrete inputs\<close>

text \<open>A message without tool calls.\<close>

abbreviation message :: "string \<Rightarrow> string \<Rightarrow> string list \<Rightarrow> Message" where
  "message role content images \<equiv>
     \<lparr>Role = role, Content = content, Images = images, ToolCalls = []\<rparr>"

text \<open>
  A template as \<open>Parse\<close> leaves it, from the nodes of its root (no further template
  defined in its source).
\<close>

abbreviation template_of :: "node list \<Rightarrow> string \<Rightarrow> Template" where
  "template_of nodes s \<equiv> \<lparr>tmpl = \<lparr>Root = nodes, Defs = [], Configured = True\<rparr>, raw = s\<rparr>"

text \<open>The action \<^verbatim>\<open>{{ .Name }}\<close>.\<close>

abbreviation field :: "string \<Rightarrow> node" where
  "field name \<equiv> ActionNode [[FieldNode [name]]]"

text \<open>The conversation \<^verbatim>\<open>[user: "Hi", assistant: "Hello", user: "Bye"]\<close>, without tools.\<close>

definition hi_hello_bye :: Values where
  "hi_hello_bye =
     \<lparr>Messages = [message ''user'' ''Hi'' [], message ''assistant'' ''Hello'' [],
                  message ''user'' ''Bye'' []],
      Tools = []\<rparr>"

section \<open>Properties of the template and its identifiers\<close>

lemma ToLower_words:
  "ToLower ''Response'' = ''response''"
  "ToLower ''response'' = ''response''"
  "ToLower ''Prompt'' = ''prompt''"
  "ToLower ''System'' = ''system''"
  "ToLower ''Messages'' = ''messages''"
  by code_simp+

lemma set_Vars:
  "set (Vars t) =
     ToLower ` (\<Union>nodes \<in> set (Templates (tmpl t)). \<Union>n \<in> set nodes. set (Identifiers n))"
  by (auto simp: Vars_def)

lemma set_Vars_template_of:
  "set (Vars (template_of nodes s)) = ToLower ` (\<Union>n \<in> set nodes. set (Identifiers n))"
  by (simp add: set_Vars Templates_def)

lemma DeleteFunc_cut_True: "DeleteFunc_cut True ns = []"
  by (induction ns) simp_all

lemma DeleteFunc_cut_takeWhile:
  "DeleteFunc_cut False ns = takeWhile (\<lambda>n. ''Response'' \<notin> set (Identifiers n)) ns"
  by (induction ns) (simp_all add: DeleteFunc_cut_True)

lemma collate_hi_hello_bye:
  "collate (Messages hi_hello_bye) = ([], Messages hi_hello_bye)"
  by (simp add: collate_def hi_hello_bye_def)

section \<open>Parse and String\<close>

text \<open>
  C8. For every source that \<open>Parse\<close> accepts, \<open>String\<close> of the template returns the
  source as it was given, whether or not \<open>Parse\<close> appended the node
  \<^verbatim>\<open>{{ .Response }}\<close> to the root of the tree.
\<close>

theorem Parse_String_roundtrip: "Parse parser s = Inr t \<Longrightarrow> String t = s"
  by (auto simp: Parse_def String_def Let_def split: sum.splits prod.splits if_splits)

text \<open>
  The default template \<^verbatim>\<open>{{ .Prompt }}\<close>, whose variables hold neither \<^verbatim>\<open>messages\<close>
  nor \<^verbatim>\<open>response\<close>: the node is appended and the source is read back.
\<close>

theorem Parse_String_roundtrip_witness:
  "Parse (\<lambda>s. Inr ([field ''Prompt''], [])) ''{{ .Prompt }}''
     = Inr (template_of [field ''Prompt'', response_node] ''{{ .Prompt }}'')
   \<and> String (template_of [field ''Prompt'', response_node] ''{{ .Prompt }}'') = ''{{ .Prompt }}''"
proof -
  have p: "Parse (\<lambda>s. Inr ([field ''Prompt''], [])) ''{{ .Prompt }}''
     = Inr (template_of [field ''Prompt'', response_node] ''{{ .Prompt }}'')"
    by (simp add: Parse_def set_Vars Templates_def ToLower_words)
  from Parse_String_roundtrip [OF p] p show ?thesis by simp
qed

section \<open>The loop over the collated messages\<close>

lemma turns_spec_turns:
  "len = i + length ms \<Longrightarrow>
   turns ev t len i ms b prompt response = spec_turns ev t ms b prompt response"
proof (induction ms arbitrary: i b prompt response)
  case Nil
  then show ?case by simp
next
  case (Cons m ms)
  have last: "(int i \<noteq> int len - 1) = (ms \<noteq> [])"
    using Cons.prems by auto
  have step: "len = Suc i + length ms"
    using Cons.prems by simp
  show ?case
    by (simp add: last Let_def Cons.IH [OF step] split: prod.splits option.splits)
qed

lemma spec_turns_all_user:
  "\<forall>m\<in>set ms. Role m = ''user'' \<Longrightarrow>
   spec_turns ev t ms b prompt [] = Inr (b, if ms = [] then prompt else Content (last ms), [])"
  by (induction ms arbitrary: prompt) simp_all

lemma turns_hi_hello_bye:
  "turns exec_text (template_of [field ''Prompt'', response_node] s) 3 0 (Messages hi_hello_bye) [] [] []
     = Inr (''HiHello'', ''Bye'', [])"
  by (simp add: hi_hello_bye_def exec_text_def response_node_def)

text \<open>
  C5. The loop of \<open>Execute\<close> over the collated messages is the walk of the specification:
  a user message sets the prompt, any other message the response, and the template is
  rendered with \<^verbatim>\<open>{System: "", Prompt, Response}\<close>, both then reset, exactly when both
  are non-empty and the message is not the last one. When every collated message is a user
  message, the loop renders nothing, whatever the evaluator: it cannot fail, it leaves the
  buffer as it was, and the prompt is the content of the last message.
\<close>

theorem Execute_turns:
  "turns ev t (length collated) 0 collated b prompt response
     = spec_turns ev t collated b prompt response
   \<and> ((\<forall>m\<in>set collated. Role m = ''user'') \<longrightarrow>
        turns ev t (length collated) 0 collated b prompt []
          = Inr (b, if collated = [] then prompt else Content (last collated), []))"
  by (simp add: turns_spec_turns spec_turns_all_user)

text \<open>Two user messages: nothing is rendered, the buffer keeps \<^verbatim>\<open>abc\<close>.\<close>

theorem Execute_turns_witness:
  "Role (message ''user'' ''Q1'' []) = ''user'' \<and> Role (message ''user'' ''Q2'' []) = ''user''
   \<and> turns exec_text (template_of [field ''Prompt'', response_node] ''{{ .Prompt }}'') 2 0
        [message ''user'' ''Q1'' [], message ''user'' ''Q2'' []] ''abc'' [] []
      = Inr (''abc'', ''Q2'', [])"
  using Execute_turns [of exec_text "template_of [field ''Prompt'', response_node] ''{{ .Prompt }}''"
      "[message ''user'' ''Q1'' [], message ''user'' ''Q2'' []]" "''abc''" "[]" "[]"]
  by simp

section \<open>The legacy path of Execute\<close>

text \<open>
  C1, as the code has it. On the legacy path, after the loop has left the buffer \<open>b\<close> and
  the prompt, \<open>Execute\<close> evaluates once, with \<^verbatim>\<open>{System: system, Prompt: prompt}\<close>, a
  template made of the root's nodes before the first one whose identifiers contain
  \<^verbatim>\<open>Response\<close>, spelled so; the match is case-sensitive. What that evaluation wrote goes
  to the writer after the buffer when it succeeded.
\<close>

theorem Execute_final_render:
  assumes "''messages'' \<notin> set (Vars t)"
    and "turns ev t (length (snd (collate (Messages v)))) 0 (snd (collate (Messages v))) [] [] []
           = Inr (b, prompt, response)"
  shows "Execute ev t w v =
     (case ev \<lparr>Root = takeWhile (\<lambda>n. ''Response'' \<notin> set (Identifiers n)) (Root (tmpl t)),
               Defs = [], Configured = False\<rparr>
             [''System'' \<mapsto> AnyString (fst (collate (Messages v))),
              ''Prompt'' \<mapsto> AnyString prompt] of
        (out, Some err) \<Rightarrow> (w, Some err)
      | (out, None) \<Rightarrow> (w @ b @ out, None))"
proof -
  obtain system collated where c: "collate (Messages v) = (system, collated)"
    by (cases "collate (Messages v)")
  from assms(2) have loop: "turns ev t (length collated) 0 collated [] [] [] = Inr (b, prompt, response)"
    by (simp add: c)
  show ?thesis
    using assms(1)
    by (simp add: Execute_def c loop DeleteFunc_cut_takeWhile split: prod.splits option.splits)
qed

text \<open>
  The default template on \<^verbatim>\<open>[user: "Hi", assistant: "Hello", user: "Bye"]\<close>: one full
  turn, then the prompt \<^verbatim>\<open>Bye\<close> rendered by the tree cut before \<^verbatim>\<open>{{ .Response }}\<close>.
\<close>

theorem Execute_final_render_witness:
  "''messages'' \<notin> set (Vars (template_of [field ''Prompt'', response_node] ''{{ .Prompt }}''))
   \<and> turns exec_text (template_of [field ''Prompt'', response_node] ''{{ .Prompt }}'')
        (length (snd (collate (Messages hi_hello_bye)))) 0 (snd (collate (Messages hi_hello_bye)))
        [] [] []
      = Inr (''HiHello'', ''Bye'', [])
   \<and> Execute exec_text (template_of [field ''Prompt'', response_node] ''{{ .Prompt }}'') ''>''
        hi_hello_bye
      = (''>HiHelloBye'', None)"
proof -
  let ?t = "template_of [field ''Prompt'', response_node] ''{{ .Prompt }}''"
  have h1: "''messages'' \<notin> set (Vars ?t)"
    by (simp add: set_Vars_template_of response_node_def ToLower_words)
  have h2: "turns exec_text ?t (length (snd (collate (Messages hi_hello_bye)))) 0
      (snd (collate (Messages hi_hello_bye))) [] [] [] = Inr (''HiHello'', ''Bye'', [])"
  proof -
    have "length (Messages hi_hello_bye) = 3"
      by (simp add: hi_hello_bye_def)
    then show ?thesis
      by (simp only: collate_hi_hello_bye snd_conv turns_hi_hello_bye)
  qed
  have cut: "takeWhile (\<lambda>n. ''Response'' \<notin> set (Identifiers n)) (Root (tmpl ?t)) = [field ''Prompt'']"
    by (simp add: response_node_def)
  have "Execute exec_text ?t ''>'' hi_hello_bye = (''>HiHelloBye'', None)"
    using Execute_final_render [OF h1 h2, of "''>''"]
    by (simp add: exec_text_def collate_hi_hello_bye response_node_def)
  with h1 h2 show ?thesis by simp
qed

text \<open>
  A node that refers to \<^verbatim>\<open>.response\<close> in lower case is not where the tree is cut:
  nothing is deleted, and the text after the node is rendered.
\<close>

theorem Execute_cut_counterexample:
  "DeleteFunc_cut False [field ''Prompt'', field ''response'', TextNode ''!'']
     = [field ''Prompt'', field ''response'', TextNode ''!'']
   \<and> Execute exec_text (template_of [field ''Prompt'', field ''response'', TextNode ''!''] ''{{ .Prompt }}{{ .response }}!'') []
        \<lparr>Messages = [message ''user'' ''Hi'' []], Tools = []\<rparr>
      = (''Hi<no value>!'', None)"
  by (simp add: Execute_def collate_def set_Vars_template_of
      ToLower_words exec_text_def)

text \<open>
  C10. On the legacy path, when \<open>Execute\<close> returns an error, the writer holds what it held
  before the call: no byte of any render has reached it.
\<close>

theorem Execute_legacy_atomic:
  assumes "''messages'' \<notin> set (Vars t)"
    and "Execute ev t w v = (w', Some err)"
  shows "w' = w"
  using assms
  by (auto simp: Execute_def Let_def split: prod.splits sum.splits option.splits)

text \<open>
  A template that writes the prompt and \<^verbatim>\<open>!\<close> and then fails: the writer keeps
  \<^verbatim>\<open>>\<close> alone.
\<close>

theorem Execute_legacy_atomic_witness:
  "''messages'' \<notin> set (Vars (template_of [field ''Prompt'', TextNode ''!'', DotNode] ''{{ .Prompt }}!{{ . }}''))
   \<and> Execute exec_text (template_of [field ''Prompt'', TextNode ''!'', DotNode] ''{{ .Prompt }}!{{ . }}'')
        ''>'' hi_hello_bye
      = (''>'', Some (LibraryError ''template: unsupported node''))"
proof -
  let ?t = "template_of [field ''Prompt'', TextNode ''!'', DotNode] ''{{ .Prompt }}!{{ . }}''"
  have h: "''messages'' \<notin> set (Vars ?t)"
    by (simp add: set_Vars_template_of ToLower_words)
  have e: "Execute exec_text ?t ''>'' hi_hello_bye
      = (''>'', Some (LibraryError ''template: unsupported node''))"
    using h by (simp add: Execute_def collate_hi_hello_bye) (simp add: hi_hello_bye_def exec_text_def)
  from Execute_legacy_atomic [OF h e] h e show ?thesis by simp
qed

text \<open>On the modern path what the evaluator wrote before it failed has reached the writer.\<close>

lemma Execute_modern_partial_output:
  "Execute exec_text
     (template_of [TextNode ''chat'', IfNode [[FieldNode [''Messages'']]] (Some [DotNode]) None]
        ''chat{{ if .Messages }}{{ . }}{{ end }}'')
     ''>'' hi_hello_bye
   = (''>chat'', Some (LibraryError ''template: unsupported node''))"
proof -
  have h: "''messages'' \<in> set (Vars (template_of [TextNode ''chat'', IfNode [[FieldNode [''Messages'']]] (Some [DotNode]) None]
        ''chat{{ if .Messages }}{{ . }}{{ end }}''))"
    by (simp add: set_Vars_template_of ToLower_words)
  show ?thesis
    using h by (simp add: Execute_def collate_hi_hello_bye exec_text_def) (simp add: hi_hello_bye_def)
qed

section \<open>The modern path of Execute\<close>

text \<open>
  C2, as the code has it. For every template whose variables contain \<^verbatim>\<open>messages\<close>,
  \<open>Execute\<close> evaluates the template once, with \<^verbatim>\<open>{System, Messages, Tools}\<close> bound to
  the system text, the collated messages and the tools, straight into the writer, and
  returns the evaluator's error.
\<close>

theorem Execute_modern:
  assumes "''messages'' \<in> set (Vars t)"
  shows "Execute ev t w v =
     (w @ fst (ev (tmpl t)
                 [''System'' \<mapsto> AnyString (fst (collate (Messages v))),
                  ''Messages'' \<mapsto> AnyMessages (snd (collate (Messages v))),
                  ''Tools'' \<mapsto> AnyTools (Tools v)]),
      snd (ev (tmpl t)
             [''System'' \<mapsto> AnyString (fst (collate (Messages v))),
              ''Messages'' \<mapsto> AnyMessages (snd (collate (Messages v))),
              ''Tools'' \<mapsto> AnyTools (Tools v)]))"
  using assms by (auto simp: Execute_def Let_def split: prod.splits)

theorem Execute_modern_witness:
  "''messages'' \<in> set (Vars (template_of
       [IfNode [[FieldNode [''Messages'']]] (Some [TextNode ''system: '', field ''System'']) None]
       ''{{ if .Messages }}system: {{ .System }}{{ end }}''))
   \<and> Execute exec_text
        (template_of
           [IfNode [[FieldNode [''Messages'']]] (Some [TextNode ''system: '', field ''System'']) None]
           ''{{ if .Messages }}system: {{ .System }}{{ end }}'')
        ''>'' \<lparr>Messages = [message ''system'' ''Be brief'' [], message ''user'' ''Hi'' []], Tools = []\<rparr>
      = (''>system: Be brief'', None)"
proof -
  let ?t = "template_of
       [IfNode [[FieldNode [''Messages'']]] (Some [TextNode ''system: '', field ''System'']) None]
       ''{{ if .Messages }}system: {{ .System }}{{ end }}''"
  have h: "''messages'' \<in> set (Vars ?t)"
    by (simp add: set_Vars_template_of ToLower_words)
  have c: "collate [message ''system'' ''Be brief'' [], message ''user'' ''Hi'' []]
      = (''Be brief'', [message ''user'' ''Hi'' []])"
    by (simp add: collate_def)
  show ?thesis
    using h Execute_modern [OF h, of exec_text "''>''"
        "\<lparr>Messages = [message ''system'' ''Be brief'' [], message ''user'' ''Hi'' []], Tools = []\<rparr>"]
    by (simp add: c exec_text_def)
qed

text \<open>
  A template whose variables contain \<^verbatim>\<open>response\<close> and not \<^verbatim>\<open>messages\<close> is rendered
  by the legacy conversion: one full turn and the final prompt, where a single evaluation
  with \<^verbatim>\<open>{System, Messages, Tools}\<close> writes two unbound fields.
\<close>

theorem Execute_modern_counterexample:
  "''response'' \<in> set (Vars (template_of [field ''Prompt'', TextNode '' '', field ''Response'']
        ''{{ .Prompt }} {{ .Response }}''))
   \<and> Execute exec_text
        (template_of [field ''Prompt'', TextNode '' '', field ''Response'']
           ''{{ .Prompt }} {{ .Response }}'') [] hi_hello_bye
      = (''Hi HelloBye '', None)
   \<and> exec_text
        (tmpl (template_of [field ''Prompt'', TextNode '' '', field ''Response'']
           ''{{ .Prompt }} {{ .Response }}''))
        [''System'' \<mapsto> AnyString (fst (collate (Messages hi_hello_bye))),
         ''Messages'' \<mapsto> AnyMessages (snd (collate (Messages hi_hello_bye))),
         ''Tools'' \<mapsto> AnyTools (Tools hi_hello_bye)]
      = (''<no value> <no value>'', None)"
proof -
  let ?t = "template_of [field ''Prompt'', TextNode '' '', field ''Response'']
        ''{{ .Prompt }} {{ .Response }}''"
  have v: "set (Vars ?t) = {''prompt'', ''response''}"
    by (auto simp: set_Vars_template_of ToLower_words)
  have e: "Execute exec_text ?t [] hi_hello_bye = (''Hi HelloBye '', None)"
    by (simp add: Execute_def v collate_hi_hello_bye) (simp add: hi_hello_bye_def exec_text_def)
  have s: "exec_text (tmpl ?t)
        [''System'' \<mapsto> AnyString (fst (collate (Messages hi_hello_bye))),
         ''Messages'' \<mapsto> AnyMessages (snd (collate (Messages hi_hello_bye))),
         ''Tools'' \<mapsto> AnyTools (Tools hi_hello_bye)]
      = (''<no value> <no value>'', None)"
    by (simp add: exec_text_def)
  from v e s show ?thesis by simp
qed

section \<open>Named\<close>

lemma Named_loop_min:
  "Named_loop dist s ts score template =
     (if ts \<noteq> [] \<and> Min ((\<lambda>t. dist s (Template t)) ` set ts) < score
      then (Min ((\<lambda>t. dist s (Template t)) ` set ts),
            List.find (\<lambda>t. dist s (Template t) = Min ((\<lambda>t. dist s (Template t)) ` set ts)) ts)
      else (score, template))"
proof (induction ts arbitrary: score template)
  case Nil
  then show ?case by simp
next
  case (Cons t ts)
  let ?d = "\<lambda>t. dist s (Template t)"
  show ?case
  proof (cases "ts = []")
    case True
    then show ?thesis by simp
  next
    case False
    define M where "M = Min (?d ` set ts)"
    have m: "Min (?d ` set (t # ts)) = min (?d t) M"
      using False by (simp add: M_def)
    have ih: "Named_loop dist s ts sc tp =
        (if M < sc then (M, List.find (\<lambda>t. ?d t = M) ts) else (sc, tp))" for sc tp
      using False by (simp add: Cons.IH M_def)
    have "Named_loop dist s (t # ts) score template =
        (if min (?d t) M < score
         then (min (?d t) M, List.find (\<lambda>x. ?d x = min (?d t) M) (t # ts))
         else (score, template))"
      by (simp add: ih min_def)
    then show ?thesis
      unfolding m by simp
  qed
qed

text \<open>
  C7. \<open>Named\<close> measures the distance from the candidate to the template string of every
  entry. When the catalog is not empty and the least distance is below 100, it returns
  the first entry, in the order of the catalog, whose distance is the least; otherwise it
  returns the error \<^verbatim>\<open>no matching template found\<close>.
\<close>

theorem Named_nearest:
  "Named dist (Inr templates) s =
     (if templates \<noteq> [] \<and> Min ((\<lambda>t. dist s (Template t)) ` set templates) < 100
      then Inr (List.find
                  (\<lambda>t. dist s (Template t) = Min ((\<lambda>t. dist s (Template t)) ` set templates))
                  templates)
      else Inl NoMatchingTemplate)"
  by (auto simp: Named_def Named_loop_min MaxInt_def)

text \<open>Two entries at the same least distance: the first one is returned.\<close>

lemma Named_example:
  "Named (\<lambda>a b. int (levenshtein a b))
     (Inr [\<lparr>Name = ''one'', Template = ''zzz'', Bytes = []\<rparr>,
           \<lparr>Name = ''two'', Template = ''abcd'', Bytes = []\<rparr>,
           \<lparr>Name = ''three'', Template = ''xabc'', Bytes = []\<rparr>])
     ''abc''
   = Inr (Some \<lparr>Name = ''two'', Template = ''abcd'', Bytes = []\<rparr>)"
  by (simp add: Named_def MaxInt_def)

section \<open>Names that are not local\<close>







text \<open>A local name on the same archive: the entry is staged and the staged file opened.\<close>

lemma Open_stages_example:
  "Open memory_host
     \<lparr>z_r = (\<lambda>name. Inr \<lparr>Stat = Inr (2 ^ 25), Data = ''weights''\<rparr>), z_p = ''/tmp/stage''\<rparr>
     Map.empty ''model.bin''
   = ([''/tmp/stage/model.bin'' \<mapsto> ''weights''], Inr (LocalFile ''/tmp/stage/model.bin''))"
proof -
  have "utf8_valid (map of_char ''model.bin'')"
    by code_simp
  then have "ValidPath ''model.bin''"
    by (simp add: ValidPath_def)
  then show ?thesis
    by (simp add: Open_def zip_Open_def memory_host_def unix_IsLocal_def Let_def)
qed

section \<open>Trimming and searching\<close>

lemma Contains_sublist: "Contains s sub = sublist sub s"
  by (induction s) (simp_all add: sublist_Cons_right)

lemma TrimRight_prefix: "prefix (TrimRight s) s"
proof (induction s rule: TrimRight.induct)
  case (1 s)
  show ?case
  proof (cases "space_suffix s = 0")
    case True
    then show ?thesis by (simp add: TrimRight.simps)
  next
    case False
    with 1 have "prefix (TrimRight (take (length s - space_suffix s) s)) (take (length s - space_suffix s) s)"
      by simp
    then have "prefix (TrimRight (take (length s - space_suffix s) s)) s"
      using take_is_prefix prefix_order.order_trans by blast
    with False show ?thesis
      by (subst TrimRight.simps) simp
  qed
qed

lemma TrimRight_idem: "TrimRight (TrimRight s) = TrimRight s"
proof (induction s rule: TrimRight.induct)
  case (1 s)
  show ?case
  proof (cases "space_suffix s = 0")
    case True
    then have "TrimRight s = s" by (simp add: TrimRight.simps)
    then show ?thesis by simp
  next
    case False
    then have "TrimRight s = TrimRight (take (length s - space_suffix s) s)"
      by (subst TrimRight.simps) simp
    with 1 False show ?thesis by simp
  qed
qed

text \<open>No white-space rune has the byte of a closing bracket.\<close>

lemma bracket_not_space:
  "sp \<in> set spaces \<Longrightarrow> CHR '']'' \<notin> set sp"
  by (auto simp: spaces_def)

lemma suffix_past:
  assumes "x \<notin> set sp"
  shows "suffix sp (p @ x # s) = suffix sp s"
  using assms by (auto simp: suffix_append suffix_Cons)

lemma space_suffix_past:
  assumes "\<forall>sp\<in>set spaces. x \<notin> set sp"
  shows "space_suffix (p @ x # s) = space_suffix s"
proof -
  have "List.find (\<lambda>sp. suffix sp (p @ x # s)) spaces = List.find (\<lambda>sp. suffix sp s) spaces"
    using assms by (intro find_cong refl) (simp add: suffix_past)
  then show ?thesis
    by (simp add: space_suffix_def)
qed

lemma TrimRight_past:
  assumes "\<forall>sp\<in>set spaces. x \<notin> set sp"
  shows "TrimRight (p @ x # s) = p @ x # TrimRight s"
proof (induction s rule: TrimRight.induct)
  case (1 s)
  have k: "space_suffix (p @ x # s) = space_suffix s"
    using assms by (rule space_suffix_past)
  show ?case
  proof (cases "space_suffix s = 0")
    case True
    then show ?thesis
      by (simp add: TrimRight.simps [of s] TrimRight.simps [of "p @ x # s"] k)
  next
    case False
    have le: "space_suffix s \<le> length s"
      by (rule space_suffix_le)
    then have t: "take (length (p @ x # s) - space_suffix s) (p @ x # s)
        = p @ x # take (length s - space_suffix s) s"
      by (simp add: Suc_diff_le)
    have "TrimRight (p @ x # s) = TrimRight (p @ x # take (length s - space_suffix s) s)"
      using False by (subst TrimRight.simps) (simp only: k t if_False)
    also have "\<dots> = p @ x # TrimRight (take (length s - space_suffix s) s)"
      using 1 False by simp
    also have "\<dots> = p @ x # TrimRight s"
      using False by (subst (2) TrimRight.simps) simp
    finally show ?thesis .
  qed
qed

lemma TrimLeft_bracket: "TrimLeft (CHR ''['' # s) = CHR ''['' # s"
proof -
  have "space_prefix (CHR ''['' # s) = 0"
    by (simp add: space_prefix_def spaces_def)
  then show ?thesis
    by (simp add: TrimLeft.simps)
qed

lemma TrimSpace_img:
  "TrimSpace (''[img] '' @ content) = ''[img]'' @ TrimRight (CHR '' '' # content)"
proof -
  have "TrimRight (''[img'' @ CHR '']'' # CHR '' '' # content)
      = ''[img'' @ CHR '']'' # TrimRight (CHR '' '' # content)"
    using bracket_not_space by (intro TrimRight_past) blast
  then show ?thesis
    by (simp add: TrimSpace_def TrimLeft_bracket)
qed

lemma digit_not_bracket: "d < 10 \<Longrightarrow> digit d \<noteq> CHR ''[''"
proof
  assume d: "d < 10" and "digit d = CHR ''[''"
  then have "(of_char (digit d) :: nat) = of_char CHR ''[''"
    by simp
  with d show False
    by (simp add: digit_def)
qed

lemma Itoa_no_bracket: "CHR ''['' \<notin> set (Itoa n)"
proof (induction n rule: Itoa.induct)
  case (1 n)
  show ?case
  proof (cases "n < 10")
    case True
    then show ?thesis
      using digit_not_bracket [of n] by (subst Itoa.simps) auto
  next
    case False
    have "n mod 10 < 10" by simp
    then have "digit (n mod 10) \<noteq> CHR ''[''"
      by (rule digit_not_bracket)
    with 1 False show ?thesis
      by (subst Itoa.simps) auto
  qed
qed

lemma Contains_skip:
  "c \<notin> set d \<Longrightarrow> Contains (d @ s) (c # sub) = Contains s (c # sub)"
  by (induction d) auto

lemma Contains_TrimRight_space:
  assumes "\<not> Contains content ''[img]''"
  shows "\<not> Contains (TrimRight (CHR '' '' # content)) ''[img]''"
proof
  assume "Contains (TrimRight (CHR '' '' # content)) ''[img]''"
  then have "sublist ''[img]'' (TrimRight (CHR '' '' # content))"
    by (simp add: Contains_sublist)
  moreover have "sublist (TrimRight (CHR '' '' # content)) (CHR '' '' # content)"
    using TrimRight_prefix by (rule prefix_imp_sublist)
  ultimately have "sublist ''[img]'' (CHR '' '' # content)"
    by (rule sublist_order.order_trans)
  then have "Contains (CHR '' '' # content) ''[img]''"
    by (simp add: Contains_sublist)
  with assms show False
    by simp
qed

section \<open>The image loop\<close>

text \<open>One round of the image loop on a content without the placeholder.\<close>

lemma tag_images_step:
  assumes "\<not> Contains content ''[img]''"
  shows "tag_images (img # imgs) n content =
     tag_images imgs (n + 1) (''[img-'' @ Itoa n @ '']'' @ TrimRight (CHR '' '' # content))"
  using assms TrimSpace_img [of content] by simp

lemma tagged_no_placeholder:
  assumes "\<not> Contains content ''[img]''"
  shows "\<not> Contains (''[img-'' @ Itoa n @ '']'' @ TrimRight (CHR '' '' # content)) ''[img]''"
proof -
  have "Contains (Itoa n @ '']'' @ TrimRight (CHR '' '' # content)) ''[img]''
      = Contains ('']'' @ TrimRight (CHR '' '' # content)) ''[img]''"
    using Itoa_no_bracket by (rule Contains_skip)
  then show ?thesis
    using Contains_TrimRight_space [OF assms] by simp
qed

lemma TrimRight_tagged:
  "TrimRight (CHR '' '' # ''[img-'' @ Itoa n @ '']'' @ TrimRight s)
     = CHR '' '' # ''[img-'' @ Itoa n @ '']'' @ TrimRight s"
proof -
  have "TrimRight ((CHR '' '' # ''[img-'' @ Itoa n) @ CHR '']'' # TrimRight s)
      = (CHR '' '' # ''[img-'' @ Itoa n) @ CHR '']'' # TrimRight (TrimRight s)"
    using bracket_not_space by (intro TrimRight_past) blast
  then show ?thesis
    by (simp add: TrimRight_idem)
qed

lemma tag_images_one:
  assumes "\<not> Contains content ''[img]''"
  shows "tag_images [img] n content =
     (n + 1, ''[img-'' @ Itoa n @ '']'' @ TrimRight (CHR '' '' # content))"
  using assms by (simp add: tag_images_step del: tag_images.simps(2))

lemma tag_images_two:
  assumes "\<not> Contains content ''[img]''"
  shows "tag_images [img1, img2] n content =
     (n + 2, ''[img-'' @ Itoa (n + 1) @ ''] [img-'' @ Itoa n @ '']'' @ TrimRight (CHR '' '' # content))"
proof -
  let ?c1 = "''[img-'' @ Itoa n @ '']'' @ TrimRight (CHR '' '' # content)"
  have "tag_images [img1, img2] n content = tag_images [img2] (n + 1) ?c1"
    using assms by (rule tag_images_step)
  also have "\<dots> = (n + 1 + 1, ''[img-'' @ Itoa (n + 1) @ '']'' @ TrimRight (CHR '' '' # ?c1))"
    using tagged_no_placeholder [OF assms] by (rule tag_images_one)
  also have "TrimRight (CHR '' '' # ?c1) = CHR '' '' # ?c1"
    using TrimRight_tagged [of n "CHR '' '' # content"] by simp
  finally show ?thesis
    by simp
qed

lemma Itoa_small: "Itoa 0 = ''0''" "Itoa (Suc 0) = ''1''" "Itoa 2 = ''2''"
  by code_simp+

lemma TrimRight_examples:
  "TrimRight '' hello'' = '' hello''"
  "TrimRight '' bye  '' = '' bye''"
  "TrimRight '' compare'' = '' compare''"
  "TrimRight '' and this'' = '' and this''"
  by code_simp+

lemma tag_images_placeholder:
  "tag_images [''png''] 0 ''what is [img]?'' = (1, ''what is [img-0]?'')"
  "tag_images [''jpg''] 0 ''describe [img] please'' = (1, ''describe [img-0] please'')"
  by (simp_all add: Itoa_small)

section \<open>collate and the specification\<close>

lemma separated_Cons: "separated sep (x # xs) = x @ concat (map (\<lambda>y. sep @ y) xs)"
  by (induction xs arbitrary: x) simp_all

text \<open>The system text of the loop, from what it has accumulated and the contents to come.\<close>

lemma collate_loop_system:
  "fst (collate_loop msgs system collated n) =
     (if system \<noteq> []
      then system @ concat (map (\<lambda>c. ''\<newline>\<newline>'' @ c) (map Content (filter (\<lambda>m. Role m = ''system'') msgs)))
      else separated ''\<newline>\<newline>''
             (dropWhile (\<lambda>c. c = []) (map Content (filter (\<lambda>m. Role m = ''system'') msgs))))"
proof (induction msgs arbitrary: system collated n)
  case Nil
  then show ?case by simp
next
  case (Cons m msgs)
  have sep: "(@) ''\<newline>\<newline>'' = (\<lambda>a. CHR ''\<newline>'' # CHR ''\<newline>'' # a)"
    by (rule ext) simp
  show ?case
  proof (cases "Role m = ''system''")
    case True
    then show ?thesis
      by (simp add: Cons.IH separated_Cons sep)
  next
    case False
    then show ?thesis
      by (simp add: Cons.IH Let_def sep split: prod.splits)
  qed
qed

text \<open>The collated messages of the loop, from those it holds and the messages to come.\<close>

lemma collate_loop_collated:
  "snd (collate_loop msgs system collated n) =
     (if collated = [] then spec_merged (spec_tagged n (filter (\<lambda>m. Role m \<noteq> ''system'') msgs))
      else butlast collated @
           spec_merged (last collated # spec_tagged n (filter (\<lambda>m. Role m \<noteq> ''system'') msgs)))"
proof (induction msgs arbitrary: system collated n)
  case Nil
  then show ?case by simp
next
  case (Cons m msgs)
  show ?case
  proof (cases "Role m = ''system''")
    case True
    then show ?thesis
      by (simp add: Cons.IH)
  next
    case False
    obtain n' content where t: "tag_images (Images m) n (Content m) = (n', content)"
      by (cases "tag_images (Images m) n (Content m)")
    show ?thesis
    proof (cases "collated = []")
      case True
      with False show ?thesis
        by (simp add: Cons.IH t)
    next
      case nonempty: False
      then have c: "butlast collated @ [last collated] = collated"
        by simp
      show ?thesis
      proof (cases "Role (last collated) = Role m")
        case True
        with False nonempty show ?thesis
          by (simp add: Cons.IH t)
      next
        case differ: False
        with False nonempty show ?thesis
          using c by (simp add: Cons.IH t butlast_append)
      qed
    qed
  qed
qed

text \<open>
  C6, as the code has it. \<open>collate\<close> takes the system messages out of the sequence and
  returns their contents joined by a blank line, where the system messages with an empty
  content that come before the first non-empty one leave no blank line: the separator is
  added only to a system text that is not empty. The other messages keep their order,
  get their image markers, and each is merged into the message retained before it when
  the roles are equal, its content after two newlines; otherwise it starts a new entry.
\<close>

theorem collate_spec:
  "collate msgs =
     (spec_system msgs, spec_merged (spec_tagged 0 (filter (\<lambda>m. Role m \<noteq> ''system'') msgs)))"
  by (simp add: collate_def spec_system_def prod_eq_iff collate_loop_system collate_loop_collated)

text \<open>The two examples of the specification, by the theorem.\<close>

theorem collate_spec_witness:
  "collate [message ''system'' ''A'' [], message ''system'' ''B'' [], message ''user'' ''Q1'' [],
            message ''assistant'' ''R1'' [], message ''user'' ''Q2'' []]
     = (''A\<newline>\<newline>B'',
        [message ''user'' ''Q1'' [], message ''assistant'' ''R1'' [], message ''user'' ''Q2'' []])
   \<and> collate [message ''user'' ''a'' [], message ''user'' ''b'' []]
     = ([], [message ''user'' ''a\<newline>\<newline>b'' []])"
  using collate_spec [of "[message ''system'' ''A'' [], message ''system'' ''B'' [],
        message ''user'' ''Q1'' [], message ''assistant'' ''R1'' [], message ''user'' ''Q2'' []]"]
    collate_spec [of "[message ''user'' ''a'' [], message ''user'' ''b'' []]"]
  by (simp add: spec_system_def)

text \<open>
  A system message with an empty content before one with the content \<^verbatim>\<open>B\<close>: the system
  text is \<^verbatim>\<open>B\<close>, with no blank line before it.
\<close>

theorem collate_spec_counterexample:
  "fst (collate [message ''system'' [] [], message ''system'' ''B'' []]) = ''B''
   \<and> separated ''\<newline>\<newline>'' [[], ''B''] = ''\<newline>\<newline>B''"
  by (simp add: collate_def)

section \<open>The image counter across the conversation\<close>

lemma spec_tagged_no_images:
  "\<forall>m\<in>set ms. Images m = [] \<Longrightarrow> spec_tagged n (ms @ rest) = ms @ spec_tagged n rest"
  by (induction ms arbitrary: n) simp_all

lemma spec_merged_Nil: "(spec_merged xs = []) = (xs = [])"
  by (induction xs rule: spec_merged.induct) simp_all

lemma spec_merged_hd:
  "prefix (Content x) (Content (hd (spec_merged (x # xs))))"
proof (induction xs arbitrary: x)
  case Nil
  then show ?case by simp
next
  case (Cons y ys)
  show ?case
  proof (cases "Role x = Role y")
    case True
    have "prefix (Content x @ ''\<newline>\<newline>'' @ Content y)
        (Content (hd (spec_merged (x\<lparr>Content := Content x @ ''\<newline>\<newline>'' @ Content y\<rparr> # ys))))"
      using Cons.IH [of "x\<lparr>Content := Content x @ ''\<newline>\<newline>'' @ Content y\<rparr>"] by simp
    then have "prefix (Content x)
        (Content (hd (spec_merged (x\<lparr>Content := Content x @ ''\<newline>\<newline>'' @ Content y\<rparr> # ys))))"
      by (rule append_prefixD)
    with True show ?thesis by simp
  next
    case False
    then show ?thesis by simp
  qed
qed

lemma spec_merged_last:
  "suffix (Content (last (x # xs))) (Content (last (spec_merged (x # xs))))"
proof (induction xs arbitrary: x)
  case Nil
  then show ?case by simp
next
  case (Cons y ys)
  show ?case
  proof (cases "Role x = Role y")
    case True
    let ?x = "x\<lparr>Content := Content x @ ''\<newline>\<newline>'' @ Content y\<rparr>"
    have ih: "suffix (Content (last (?x # ys))) (Content (last (spec_merged (?x # ys))))"
      by (rule Cons.IH)
    show ?thesis
    proof (cases "ys = []")
      case True
      have "suffix (Content y) (Content x @ ''\<newline>\<newline>'' @ Content y)"
        by (metis suffixI append.assoc)
      with True \<open>Role x = Role y\<close> show ?thesis by simp
    next
      case False
      with ih True show ?thesis by simp
    qed
  next
    case False
    have "spec_merged (y # ys) \<noteq> []"
      by (simp add: spec_merged_Nil)
    with False Cons.IH [of y] show ?thesis by simp
  qed
qed

text \<open>
  Two messages of different roles, the first with two images and the second with one,
  neither holding the placeholder: what \<open>collate\<close> returns for them.
\<close>

lemma collate_image_pair:
  assumes "Role m1 \<noteq> ''system''" and "Role m2 \<noteq> ''system''" and "Role m2 \<noteq> Role m1"
    and "length (Images m1) = 2" and "length (Images m2) = 1"
    and "\<not> Contains (Content m1) ''[img]''" and "\<not> Contains (Content m2) ''[img]''"
  shows "snd (collate [m1, m2]) =
     [m1\<lparr>Content := ''[img-1] [img-0]'' @ TrimRight (CHR '' '' # Content m1)\<rparr>,
      m2\<lparr>Content := ''[img-2]'' @ TrimRight (CHR '' '' # Content m2)\<rparr>]"
proof -
  from assms(4) obtain a b where i1: "Images m1 = [a, b]"
    by (cases "Images m1"; cases "tl (Images m1)") auto
  from assms(5) obtain c where i2: "Images m2 = [c]"
    by (cases "Images m2") auto
  have t1: "tag_images (Images m1) 0 (Content m1)
      = (2, ''[img-1] [img-0]'' @ TrimRight (CHR '' '' # Content m1))"
    using tag_images_two [OF assms(6), of a b 0]
    by (simp add: i1 Itoa_small del: tag_images.simps)
  have t2: "tag_images (Images m2) 2 (Content m2)
      = (3, ''[img-2]'' @ TrimRight (CHR '' '' # Content m2))"
    using tag_images_one [OF assms(7), of c 2]
    by (simp add: i2 Itoa_small del: tag_images.simps)
  show ?thesis
    using assms(1-3) by (simp add: collate_def t1 t2 del: tag_images.simps)
qed

text \<open>
  C4, as the code has it. The image markers are numbered by one counter for the whole
  conversation, advanced once for every image and never reset. Take a conversation whose
  messages other than system messages are: a first message with two images, then any
  messages without images, then a message with one image, where neither of the two
  holds the placeholder \<^verbatim>\<open>[img]\<close>. The first message gets both its markers in front of
  its content, the later one first: the first collated content starts with
  \<^verbatim>\<open>[img-1] [img-0]\<close> and the content of the message. The last message gets the marker
  \<^verbatim>\<open>[img-2]\<close>: the last collated content ends with \<^verbatim>\<open>[img-2]\<close> and the content of the
  message.
\<close>

theorem collate_image_counter:
  assumes "filter (\<lambda>m. Role m \<noteq> ''system'') msgs = m1 # mid @ [m2]"
    and "\<forall>m\<in>set mid. Images m = []"
    and "length (Images m1) = 2" and "length (Images m2) = 1"
    and "\<not> Contains (Content m1) ''[img]''" and "\<not> Contains (Content m2) ''[img]''"
  shows "prefix (''[img-1] [img-0]'' @ TrimRight (CHR '' '' # Content m1))
           (Content (hd (snd (collate msgs))))
       \<and> suffix (''[img-2]'' @ TrimRight (CHR '' '' # Content m2))
           (Content (last (snd (collate msgs))))"
proof -
  from assms(3) obtain a b where i1: "Images m1 = [a, b]"
    by (cases "Images m1"; cases "tl (Images m1)") auto
  from assms(4) obtain c where i2: "Images m2 = [c]"
    by (cases "Images m2") auto
  let ?c1 = "''[img-1] [img-0]'' @ TrimRight (CHR '' '' # Content m1)"
  let ?c2 = "''[img-2]'' @ TrimRight (CHR '' '' # Content m2)"
  have t1: "tag_images (Images m1) 0 (Content m1) = (2, ?c1)"
    using tag_images_two [OF assms(5), of a b 0]
    by (simp add: i1 Itoa_small del: tag_images.simps)
  have t2: "tag_images (Images m2) 2 (Content m2) = (3, ?c2)"
    using tag_images_one [OF assms(6), of c 2]
    by (simp add: i2 Itoa_small del: tag_images.simps)
  have tagged: "spec_tagged 0 (m1 # mid @ [m2]) = m1\<lparr>Content := ?c1\<rparr> # mid @ [m2\<lparr>Content := ?c2\<rparr>]"
    using spec_tagged_no_images [OF assms(2), of 2 "[m2]"]
    by (simp add: t1 t2 del: tag_images.simps)
  have c: "snd (collate msgs) = spec_merged (m1\<lparr>Content := ?c1\<rparr> # mid @ [m2\<lparr>Content := ?c2\<rparr>])"
    by (simp add: collate_def collate_loop_collated assms(1) tagged del: spec_tagged.simps)
  have "prefix (Content (m1\<lparr>Content := ?c1\<rparr>)) (Content (hd (snd (collate msgs))))"
    unfolding c by (rule spec_merged_hd)
  moreover
  have "suffix (Content (last (m1\<lparr>Content := ?c1\<rparr> # mid @ [m2\<lparr>Content := ?c2\<rparr>])))
      (Content (last (snd (collate msgs))))"
    unfolding c by (rule spec_merged_last)
  ultimately show ?thesis
    by simp
qed

text \<open>
  A conversation of four messages: two images on the first, a system message, a second
  user message that is merged into the first, and an answer with one image.
\<close>

theorem collate_image_counter_witness:
  "filter (\<lambda>m. Role m \<noteq> ''system'')
     [message ''user'' ''hello'' [''a'', ''b''], message ''system'' ''Be brief'' [],
      message ''user'' ''more'' [], message ''assistant'' ''bye  '' [''c'']]
     = message ''user'' ''hello'' [''a'', ''b''] # [message ''user'' ''more'' []]
         @ [message ''assistant'' ''bye  '' [''c'']]
   \<and> Images (message ''user'' ''more'' []) = []
   \<and> length (Images (message ''user'' ''hello'' [''a'', ''b''])) = 2
   \<and> length (Images (message ''assistant'' ''bye  '' [''c''])) = 1
   \<and> \<not> Contains (Content (message ''user'' ''hello'' [''a'', ''b''])) ''[img]''
   \<and> \<not> Contains (Content (message ''assistant'' ''bye  '' [''c''])) ''[img]''
   \<and> prefix ''[img-1] [img-0] hello''
        (Content (hd (snd (collate
           [message ''user'' ''hello'' [''a'', ''b''], message ''system'' ''Be brief'' [],
            message ''user'' ''more'' [], message ''assistant'' ''bye  '' [''c'']]))))
   \<and> suffix ''[img-2] bye''
        (Content (last (snd (collate
           [message ''user'' ''hello'' [''a'', ''b''], message ''system'' ''Be brief'' [],
            message ''user'' ''more'' [], message ''assistant'' ''bye  '' [''c'']]))))"
  using collate_image_counter
    [of "[message ''user'' ''hello'' [''a'', ''b''], message ''system'' ''Be brief'' [],
          message ''user'' ''more'' [], message ''assistant'' ''bye  '' [''c'']]"
        "message ''user'' ''hello'' [''a'', ''b'']" "[message ''user'' ''more'' []]"
        "message ''assistant'' ''bye  '' [''c'']"]
  by (simp add: TrimRight_examples)

text \<open>
  Two images on the first message, none on the second, one on the third: the first
  content starts with \<^verbatim>\<open>[img-1]\<close>, the third gets \<^verbatim>\<open>[img-2]\<close>.
\<close>

theorem collate_image_counter_counterexample:
  "snd (collate [message ''user'' ''compare'' [''a'', ''b''], message ''assistant'' ''ok'' [],
                 message ''user'' ''and this'' [''c'']])
   = [message ''user'' ''[img-1] [img-0] compare'' [''a'', ''b''], message ''assistant'' ''ok'' [],
      message ''user'' ''[img-2] and this'' [''c'']]"
proof -
  have t1: "tag_images [''a'', ''b''] 0 ''compare'' = (2, ''[img-1] [img-0] compare'')"
    using tag_images_two [of "''compare''" "''a''" "''b''" 0]
    by (simp add: Itoa_small TrimRight_examples del: tag_images.simps)
  have t2: "tag_images [''c''] 2 ''and this'' = (3, ''[img-2] and this'')"
    using tag_images_one [of "''and this''" "''c''" 2]
    by (simp add: Itoa_small TrimRight_examples del: tag_images.simps)
  show ?thesis
    by (simp add: collate_def t1 t2 del: tag_images.simps(2))
qed

section \<open>collate and the messages of the caller\<close>

lemma collate_store_loop_step:
  "collate_store_loop store (a # addrs) system collated n =
     (if Role (store ! a) = ''system'' then
        collate_store_loop store addrs
          ((if system \<noteq> [] then system @ ''\<newline>\<newline>'' else system) @ Content (store ! a))
          collated n
      else if collated \<noteq> [] \<and> Role (store ! last collated) = Role (store ! a)
      then collate_store_loop
             (store[last collated := (store ! last collated)\<lparr>Content :=
                Content (store ! last collated) @ ''\<newline>\<newline>''
                  @ snd (tag_images (Images (store ! a)) n (Content (store ! a)))\<rparr>])
             addrs system collated (fst (tag_images (Images (store ! a)) n (Content (store ! a))))
      else collate_store_loop
             (store @ [(store ! a)\<lparr>Content := snd (tag_images (Images (store ! a)) n (Content (store ! a)))\<rparr>])
             addrs system (collated @ [length store])
             (fst (tag_images (Images (store ! a)) n (Content (store ! a)))))"
  by (simp add: Let_def split: prod.splits)

lemma collate_loop_step:
  "collate_loop (m # msgs) system collated n =
     (if Role m = ''system'' then
        collate_loop msgs
          ((if system \<noteq> [] then system @ ''\<newline>\<newline>'' else system) @ Content m)
          collated n
      else if collated \<noteq> [] \<and> Role (last collated) = Role m
      then collate_loop msgs system
             (butlast collated @
                [(last collated)\<lparr>Content :=
                   Content (last collated) @ ''\<newline>\<newline>''
                     @ snd (tag_images (Images m) n (Content m))\<rparr>])
             (fst (tag_images (Images m) n (Content m)))
      else collate_loop msgs system
             (collated @ [m\<lparr>Content := snd (tag_images (Images m) n (Content m))\<rparr>])
             (fst (tag_images (Images m) n (Content m))))"
  by (simp add: Let_def split: prod.splits)

lemma collate_store_loop_copies:
  assumes "\<forall>a\<in>set addrs. a < length msgs"
  shows "collate_store_loop (msgs @ cs) addrs system [length msgs..<length msgs + length cs] n =
     (msgs @ snd (collate_loop (map ((!) msgs) addrs) system cs n),
      fst (collate_loop (map ((!) msgs) addrs) system cs n),
      [length msgs..<length msgs + length (snd (collate_loop (map ((!) msgs) addrs) system cs n))])"
  using assms
proof (induction addrs arbitrary: cs system n)
  case Nil
  then show ?case by simp
next
  case (Cons a addrs)
  then have a: "a < length msgs" and rest: "\<forall>a\<in>set addrs. a < length msgs"
    by simp_all
  note IH = Cons.IH [OF rest]
  let ?m = "msgs ! a"
  let ?n' = "fst (tag_images (Images ?m) n (Content ?m))"
  let ?content = "snd (tag_images (Images ?m) n (Content ?m))"
  let ?addrs = "[length msgs..<length msgs + length cs]"
  have m: "(msgs @ cs) ! a = ?m"
    using a by (simp add: nth_append)
  have map_Cons: "map ((!) msgs) (a # addrs) = ?m # map ((!) msgs) addrs"
    by simp
  show ?case
  proof (cases "Role ?m = ''system''")
    case True
    show ?thesis
      unfolding collate_store_loop_step map_Cons collate_loop_step m
      using True by (simp only: if_True IH simp_thms)
  next
    case False
    show ?thesis
    proof (cases "cs = []")
      case True
      let ?x = "?m\<lparr>Content := ?content\<rparr>"
      have ih: "collate_store_loop (msgs @ [?x]) addrs system [length msgs..<length msgs + length [?x]] ?n'
            = (msgs @ snd (collate_loop (map ((!) msgs) addrs) system [?x] ?n'),
               fst (collate_loop (map ((!) msgs) addrs) system [?x] ?n'),
               [length msgs..<length msgs + length (snd (collate_loop (map ((!) msgs) addrs) system [?x] ?n'))])"
        by (rule IH)
      have addrs: "[length msgs..<length msgs + length ([] :: Message list)] = []"
        and addrs': "[] @ [length (msgs @ [])] = [length msgs..<length msgs + length [?x]]"
        by simp_all
      show ?thesis
        unfolding collate_store_loop_step map_Cons collate_loop_step m True
        using False ih by simp
    next
      case nonempty: False
      then have lastaddr: "last ?addrs = length msgs + (length cs - 1)"
        by (cases cs rule: rev_cases) simp_all
      have lastcell: "(msgs @ cs) ! (length msgs + (length cs - 1)) = last cs"
        using nonempty by (simp add: last_conv_nth)
      have nonempty_addrs: "?addrs \<noteq> []"
        using nonempty by simp
      show ?thesis
      proof (cases "Role (last cs) = Role ?m")
        case True
        let ?x = "(last cs)\<lparr>Content := Content (last cs) @ ''\<newline>\<newline>'' @ ?content\<rparr>"
        have upd: "(msgs @ cs)[length msgs + (length cs - 1) := ?x] = msgs @ (butlast cs @ [?x])"
          using nonempty by (cases cs rule: rev_cases) (simp_all add: list_update_append)
        have len: "length cs = length (butlast cs @ [?x])"
          using nonempty by simp
        have ih: "collate_store_loop (msgs @ (butlast cs @ [?x])) addrs system
                [length msgs..<length msgs + length (butlast cs @ [?x])] ?n'
              = (msgs @ snd (collate_loop (map ((!) msgs) addrs) system (butlast cs @ [?x]) ?n'),
                 fst (collate_loop (map ((!) msgs) addrs) system (butlast cs @ [?x]) ?n'),
                 [length msgs..<length msgs + length (snd (collate_loop (map ((!) msgs) addrs) system (butlast cs @ [?x]) ?n'))])"
          by (rule IH)
        have lhs: "collate_store_loop (msgs @ cs) (a # addrs) system ?addrs n
            = collate_store_loop (msgs @ (butlast cs @ [?x])) addrs system
                [length msgs..<length msgs + length (butlast cs @ [?x])] ?n'"
          unfolding collate_store_loop_step m lastaddr lastcell upd
          using False True nonempty_addrs len by (simp only: if_False if_True simp_thms)
        have rhs: "collate_loop (map ((!) msgs) (a # addrs)) system cs n
            = collate_loop (map ((!) msgs) addrs) system (butlast cs @ [?x]) ?n'"
          unfolding map_Cons collate_loop_step
          using False True nonempty by (simp only: if_False if_True simp_thms)
        show ?thesis
          unfolding lhs rhs by (rule ih)
      next
        case differ: False
        let ?x = "?m\<lparr>Content := ?content\<rparr>"
        have ih: "collate_store_loop (msgs @ (cs @ [?x])) addrs system
                [length msgs..<length msgs + length (cs @ [?x])] ?n'
              = (msgs @ snd (collate_loop (map ((!) msgs) addrs) system (cs @ [?x]) ?n'),
                 fst (collate_loop (map ((!) msgs) addrs) system (cs @ [?x]) ?n'),
                 [length msgs..<length msgs + length (snd (collate_loop (map ((!) msgs) addrs) system (cs @ [?x]) ?n'))])"
          by (rule IH)
        have addrs': "?addrs @ [length (msgs @ cs)] = [length msgs..<length msgs + length (cs @ [?x])]"
          by simp
        have lhs: "collate_store_loop (msgs @ cs) (a # addrs) system ?addrs n
            = collate_store_loop (msgs @ (cs @ [?x])) addrs system
                [length msgs..<length msgs + length (cs @ [?x])] ?n'"
          unfolding collate_store_loop_step m lastaddr lastcell addrs'
          using False differ by (simp only: if_False simp_thms append_assoc)
        have rhs: "collate_loop (map ((!) msgs) (a # addrs)) system cs n
            = collate_loop (map ((!) msgs) addrs) system (cs @ [?x]) ?n'"
          unfolding map_Cons collate_loop_step
          using False differ by (simp only: if_False simp_thms)
        show ?thesis
          unfolding lhs rhs by (rule ih)
      qed
    qed
  qed
qed

lemma map_nth_append_upt:
  "map ((!) (msgs @ cs)) [length msgs..<length msgs + length cs] = cs"
proof -
  have "[length msgs..<length msgs + length cs] = map (\<lambda>i. i + length msgs) [0..<length cs]"
    by (simp add: map_add_upt add.commute)
  then have "map ((!) (msgs @ cs)) [length msgs..<length msgs + length cs]
      = map (\<lambda>i. cs ! i) [0..<length cs]"
    by (simp add: nth_append)
  then show ?thesis
    by (simp add: map_nth)
qed

text \<open>
  C9, as the code has it. \<open>collate\<close> writes to no message of the caller: after the call
  the cells of the caller's slice hold what they held. The system text and the messages
  that the returned pointers point to, with the image markers in their content, are those
  of \<open>collate\<close>; they are in cells of their own.
\<close>

theorem collate_store_copies:
  assumes "collate_store msgs = (store, system, collated)"
  shows "take (length msgs) store = msgs \<and> (system, map ((!) store) collated) = collate msgs"
proof -
  have "collate_store_loop (msgs @ []) [0..<length msgs] [] [length msgs..<length msgs + length ([] :: Message list)] 0 =
     (msgs @ snd (collate_loop (map ((!) msgs) [0..<length msgs]) [] [] 0),
      fst (collate_loop (map ((!) msgs) [0..<length msgs]) [] [] 0),
      [length msgs..<length msgs + length (snd (collate_loop (map ((!) msgs) [0..<length msgs]) [] [] 0))])"
    by (rule collate_store_loop_copies) simp
  then have "collate_store msgs =
     (msgs @ snd (collate msgs), fst (collate msgs),
      [length msgs..<length msgs + length (snd (collate msgs))])"
    by (simp add: collate_store_def collate_def map_nth)
  with assms have s: "store = msgs @ snd (collate msgs)" and y: "system = fst (collate msgs)"
    and c: "collated = [length msgs..<length msgs + length (snd (collate msgs))]"
    by simp_all
  show ?thesis
    unfolding s y c by (simp add: map_nth_append_upt)
qed

text \<open>One message with an image and the placeholder: the copy is annotated, in cell 1.\<close>

theorem collate_store_copies_witness:
  "collate_store [message ''user'' ''what is [img]?'' [''png'']]
     = ([message ''user'' ''what is [img]?'' [''png''],
         message ''user'' ''what is [img-0]?'' [''png'']], [], [1])
   \<and> take (length [message ''user'' ''what is [img]?'' [''png'']])
        [message ''user'' ''what is [img]?'' [''png''],
         message ''user'' ''what is [img-0]?'' [''png'']]
      = [message ''user'' ''what is [img]?'' [''png'']]
   \<and> ([], map ((!) [message ''user'' ''what is [img]?'' [''png''],
                      message ''user'' ''what is [img-0]?'' [''png'']]) [1])
      = collate [message ''user'' ''what is [img]?'' [''png'']]"
proof -
  have h: "collate_store [message ''user'' ''what is [img]?'' [''png'']]
     = ([message ''user'' ''what is [img]?'' [''png''],
         message ''user'' ''what is [img-0]?'' [''png'']], [], [1])"
    by (simp add: collate_store_def tag_images_placeholder del: tag_images.simps)
  from collate_store_copies [OF h] h show ?thesis
    by simp
qed

text \<open>
  A system message and a message with an image: the two cells of the caller are as they
  were, the annotated content is in the third cell.
\<close>

theorem collate_store_copies_counterexample:
  "fst (collate_store [message ''system'' ''Be brief'' [],
                       message ''user'' ''describe [img] please'' [''jpg'']])
   = [message ''system'' ''Be brief'' [],
      message ''user'' ''describe [img] please'' [''jpg''],
      message ''user'' ''describe [img-0] please'' [''jpg'']]"
  by (simp add: collate_store_def upt_conv_Cons tag_images_placeholder del: tag_images.simps)

end
